theory Spec2Isabelle
  imports Main "HOL-Library.Word"
begin

section \<open>JavaScript values and strings\<close>

text \<open>
  A JavaScript string is a sequence of 16-bit UTF-16 code units. \<open>charCodeAt\<close>, regular
  expressions without the \<open>u\<close> flag and \<open>split\<close> all work on code units; only the string
  iterator (used by \<open>new Set(string)\<close>) groups a high surrogate followed by a low surrogate
  into one element.
\<close>

type_synonym code_unit = "16 word"
type_synonym jsstring = "code_unit list"

definition ustr :: "string \<Rightarrow> jsstring" where
  "ustr s = map of_char s"

text \<open>
  The values an argument may take: the serialisable subset (null, booleans, numbers, strings,
  arrays, plain objects) and \<open>undefined\<close>, which is also what an omitted argument reads as.
  Numbers are represented by the integers and NaN; only their truthiness is used.
  A plain object is the map of its own properties, under ordinary property names (the
  inherited accessor \<open>__proto__\<close> is not a key of the model).
\<close>

datatype jsval =
    JUndefined
  | JNull
  | JBool bool
  | JNum int
  | JNaN
  | JStr jsstring
  | JArr "jsval list"
  | JObj "jsstring \<Rightarrow> jsval option"

type_synonym bag = "jsstring \<Rightarrow> jsval option"

text \<open>ToBoolean: \<open>undefined\<close>, \<open>null\<close>, \<open>false\<close>, \<open>0\<close>, \<open>NaN\<close> and \<open>""\<close> are falsy.\<close>

fun truthy :: "jsval \<Rightarrow> bool" where
  "truthy JUndefined = False"
| "truthy JNull = False"
| "truthy (JBool b) = b"
| "truthy (JNum n) = (n \<noteq> 0)"
| "truthy JNaN = False"
| "truthy (JStr s) = (s \<noteq> [])"
| "truthy (JArr xs) = True"
| "truthy (JObj m) = True"

text \<open>\<open>Object.prototype.toString.call(v)\<close>.\<close>

fun objectToString :: "jsval \<Rightarrow> string" where
  "objectToString JUndefined = ''[object Undefined]''"
| "objectToString JNull = ''[object Null]''"
| "objectToString (JBool b) = ''[object Boolean]''"
| "objectToString (JNum n) = ''[object Number]''"
| "objectToString JNaN = ''[object Number]''"
| "objectToString (JStr s) = ''[object String]''"
| "objectToString (JArr xs) = ''[object Array]''"
| "objectToString (JObj m) = ''[object Object]''"

text \<open>\<open>data || {}\<close>: a falsy value is replaced by a fresh empty object.\<close>

definition orEmptyObject :: "jsval \<Rightarrow> jsval" where
  "orEmptyObject v = (if truthy v then v else JObj Map.empty)"

text \<open>
  The own properties of a value that is a plain object. It is applied only to values that
  passed the \<open>[object Object]\<close> check or to the fresh \<open>{}\<close>.
\<close>

fun properties :: "jsval \<Rightarrow> bag" where
  "properties (JObj m) = m"
| "properties v = Map.empty"

text \<open>
  String conversion of a string-or-undefined value inside a template literal or a
  concatenation: \<open>undefined\<close> prints as the nine characters \<open>undefined\<close>.
\<close>

fun toStr :: "jsstring option \<Rightarrow> jsstring" where
  "toStr None = ustr ''undefined''"
| "toStr (Some s) = s"

text \<open>\<open>xs[i]\<close> on an array: \<open>undefined\<close> out of range.\<close>

definition index :: "'a list \<Rightarrow> nat \<Rightarrow> 'a option" where
  "index xs i = (if i < length xs then Some (xs ! i) else None)"

text \<open>\<open>s.split(sep)\<close> for a one-character separator.\<close>

fun splitOn :: "code_unit \<Rightarrow> jsstring \<Rightarrow> jsstring list" where
  "splitOn sep [] = [[]]"
| "splitOn sep (x # xs) =
     (if x = sep then [] # splitOn sep xs
      else (case splitOn sep xs of [] \<Rightarrow> [[x]] | p # ps \<Rightarrow> (x # p) # ps))"

text \<open>\<open>s.substring(n)\<close>.\<close>

definition substring :: "nat \<Rightarrow> jsstring \<Rightarrow> jsstring" where
  "substring n s = drop n s"

section \<open>The escaping step of MatrixUser\<close>

text \<open>
  The character class of the regular expression in \<open>escapeUserId\<close>:
  \<open>[A-Z]|[a-z]|[0-9]|-|\.|=|_\<close>.
\<close>

definition allowedUnit :: "code_unit \<Rightarrow> bool" where
  "allowedUnit c \<longleftrightarrow>
     (0x41 \<le> c \<and> c \<le> 0x5A) \<or> (0x61 \<le> c \<and> c \<le> 0x7A) \<or> (0x30 \<le> c \<and> c \<le> 0x39)
     \<or> c = 0x2D \<or> c = 0x2E \<or> c = 0x3D \<or> c = 0x5F"

text \<open>
  \<open>localpart.replace(/(...)+/g, "")\<close>: every maximal run of allowed code units is deleted,
  so the code units outside the class remain, in order.
\<close>

definition removeAllowed :: "jsstring \<Rightarrow> jsstring" where
  "removeAllowed s = filter (\<lambda>c. \<not> allowedUnit c) s"

definition isHighSurrogate :: "code_unit \<Rightarrow> bool" where
  "isHighSurrogate c \<longleftrightarrow> 0xD800 \<le> c \<and> c \<le> 0xDBFF"

definition isLowSurrogate :: "code_unit \<Rightarrow> bool" where
  "isLowSurrogate c \<longleftrightarrow> 0xDC00 \<le> c \<and> c \<le> 0xDFFF"

text \<open>
  An element produced by the string iterator: one code unit, or a high surrogate with the low
  surrogate that follows it.
\<close>

datatype codepoint = Single code_unit | Surrogates code_unit code_unit

fun units :: "codepoint \<Rightarrow> jsstring" where
  "units (Single c) = [c]"
| "units (Surrogates h l) = [h, l]"

fun charCodeAt0 :: "codepoint \<Rightarrow> nat" where
  "charCodeAt0 (Single c) = unat c"
| "charCodeAt0 (Surrogates h l) = unat h"

fun stringIterator :: "jsstring \<Rightarrow> codepoint list" where
  "stringIterator [] = []"
| "stringIterator [c] = [Single c]"
| "stringIterator (c # d # s) =
     (if isHighSurrogate c \<and> isLowSurrogate d then Surrogates c d # stringIterator s
      else Single c # stringIterator (d # s))"

text \<open>\<open>new Set(iterable)\<close>: the distinct elements in the order of their first occurrence.\<close>

definition setAdd :: "'a \<Rightarrow> 'a list \<Rightarrow> 'a list" where
  "setAdd x acc = (if x \<in> set acc then acc else acc @ [x])"

definition newSet :: "'a list \<Rightarrow> 'a list" where
  "newSet xs = fold setAdd xs []"

definition badChars :: "jsstring \<Rightarrow> codepoint list" where
  "badChars lp = newSet (stringIterator (removeAllowed lp))"

text \<open>\<open>Number.prototype.toString(16)\<close> on a non-negative integer: lowercase, no padding.\<close>

definition hexDigit :: "nat \<Rightarrow> code_unit" where
  "hexDigit d = (if d < 10 then of_nat (0x30 + d) else of_nat (0x61 + (d - 10)))"

fun toString16 :: "nat \<Rightarrow> jsstring" where
  "toString16 n =
     (if n < 16 then [hexDigit n] else toString16 (n div 16) @ [hexDigit (n mod 16)])"

declare toString16.simps [simp del]

text \<open>
  \<open>res.replace(new RegExp("\\" + c, "g"), rep)\<close> for a non-empty literal \<open>pat\<close>: the
  occurrences of \<open>pat\<close> are found from left to right, without overlap, and each is replaced
  by \<open>rep\<close>. Without the \<open>u\<close> flag the pattern is matched code unit by code unit. The
  elements of the set are never empty, so the pattern never is.
\<close>

function replaceAll :: "jsstring \<Rightarrow> jsstring \<Rightarrow> jsstring \<Rightarrow> jsstring" where
  "replaceAll pat rep [] = []"
| "replaceAll pat rep (x # xs) =
     (if pat \<noteq> [] \<and> take (length pat) (x # xs) = pat
      then rep @ replaceAll pat rep (drop (length pat) (x # xs))
      else x # replaceAll pat rep xs)"
  by pat_completeness auto
termination
  by (relation "measure (\<lambda>(pat, rep, s). length s)") (auto simp: drop_Cons')

declare replaceAll.simps(2) [simp del]

text \<open>
  The body of the \<open>forEach\<close> callback: \<open>hex\<close> is the hexadecimal form of the first code
  unit of \<open>c\<close> (its digits are lowercase already), and every occurrence of \<open>c\<close> in
  \<open>res\<close> becomes \<open>=\<close> followed by \<open>hex\<close>.
\<close>

definition escapeChar :: "codepoint \<Rightarrow> jsstring \<Rightarrow> jsstring" where
  "escapeChar c res =
     (let hex = toString16 (charCodeAt0 c)
      in replaceAll (units c) (0x3D # hex) res)"

text \<open>The replacements made in a given order of the set's elements.\<close>

definition escapeInOrder :: "codepoint list \<Rightarrow> jsstring \<Rightarrow> jsstring" where
  "escapeInOrder cs lp = fold escapeChar cs lp"

text \<open>The order of \<open>Set.prototype.forEach\<close> is the insertion order.\<close>

definition escapeLocalpart :: "jsstring \<Rightarrow> jsstring" where
  "escapeLocalpart lp = escapeInOrder (badChars lp) lp"

section \<open>MatrixUser\<close>

record matrix_user =
  userId :: jsstring
  localpart :: jsstring
  host :: "jsstring option"
  u_data :: bag

datatype error = Error string | TypeError string

definition escapeUserId :: "matrix_user \<Rightarrow> matrix_user" where
  "escapeUserId this =
     (let res = escapeLocalpart (localpart this);
          this = this\<lparr>localpart := res\<rparr>
      in this\<lparr>userId := ustr ''@'' @ localpart this @ ustr '':'' @ toStr (host this)\<rparr>)"

text \<open>
  The constructor. \<open>user_id\<close> is a string or absent (\<open>None\<close>); \<open>escape\<close> is the value
  of the third parameter after its default, the current \<open>MatrixUser.ESCAPE_DEFAULT\<close>, has
  been filled in. Both \<open>throw\<close> statements come before the first assignment to \<open>this\<close>.
  \<open>split[0]\<close> is read with \<open>index\<close>: were it undefined, \<open>substring\<close> would raise a
  TypeError. The bag is assigned last; until then the field holds no property.
\<close>

definition MatrixUser :: "jsstring option \<Rightarrow> jsval \<Rightarrow> bool \<Rightarrow> error + matrix_user" where
  "MatrixUser user_id dat escape =
     (case user_id of
        None \<Rightarrow> Inl (Error ''Missing user_id'')
      | Some uid \<Rightarrow>
          if uid = [] then Inl (Error ''Missing user_id'')
          else if truthy dat \<and> objectToString dat \<noteq> ''[object Object]''
          then Inl (Error ''data arg must be an Object'')
          else
            (let split = splitOn 0x3A uid
             in case index split 0 of
                  None \<Rightarrow> Inl (TypeError ''Cannot read properties of undefined'')
                | Some s0 \<Rightarrow>
                    (let this = \<lparr>userId = uid, localpart = substring 1 s0,
                                 host = index split 1, u_data = Map.empty\<rparr>;
                         this = (if escape then escapeUserId this else this)
                     in Inr (this\<lparr>u_data := properties (orEmptyObject dat)\<rparr>))))"

text \<open>
  The body of the constructor, statement by statement, on the instance under construction and
  for any value of \<open>userId\<close>. A property of the instance is \<open>None\<close> until it is
  assigned; \<open>fresh\<close> is the instance before the first statement. The result is the error
  raised, if any, and the instance as the body left it. A truthy \<open>userId\<close> that is not a
  string is assigned to \<open>this.userId\<close>, and then \<open>this.userId.split\<close> is not a
  function. On a string or absent \<open>userId\<close> the body agrees with \<open>MatrixUser\<close>.
\<close>

record under_construction =
  uc_userId :: "jsval option"
  uc_localpart :: "jsstring option"
  uc_host :: "jsstring option option"
  uc_data :: "bag option"

definition fresh :: under_construction where
  "fresh = \<lparr>uc_userId = None, uc_localpart = None, uc_host = None, uc_data = None\<rparr>"

definition complete :: "under_construction \<Rightarrow> bool" where
  "complete this \<longleftrightarrow>
     uc_userId this \<noteq> None \<and> uc_localpart this \<noteq> None \<and> uc_host this \<noteq> None
     \<and> uc_data this \<noteq> None"

definition MatrixUser_body ::
  "jsval \<Rightarrow> jsval \<Rightarrow> bool \<Rightarrow> under_construction \<Rightarrow> error option \<times> under_construction" where
  "MatrixUser_body user_id dat escape this =
     (if \<not> truthy user_id then (Some (Error ''Missing user_id''), this)
      else if truthy dat \<and> objectToString dat \<noteq> ''[object Object]''
      then (Some (Error ''data arg must be an Object''), this)
      else
        (let this = this\<lparr>uc_userId := Some user_id\<rparr>
         in case user_id of
              JStr uid \<Rightarrow>
                (let split = splitOn 0x3A uid
                 in case index split 0 of
                      None \<Rightarrow> (Some (TypeError ''Cannot read properties of undefined''), this)
                    | Some s0 \<Rightarrow>
                        (let this = this\<lparr>uc_localpart := Some (substring 1 s0)\<rparr>;
                             this = this\<lparr>uc_host := Some (index split 1)\<rparr>;
                             this =
                               (if escape
                                then
                                  (let u = escapeUserId
                                             \<lparr>userId = uid, localpart = substring 1 s0,
                                              host = index split 1, u_data = Map.empty\<rparr>
                                   in this\<lparr>uc_localpart := Some (localpart u),
                                           uc_userId := Some (JStr (userId u))\<rparr>)
                                else this);
                             this = this\<lparr>uc_data := Some (properties (orEmptyObject dat))\<rparr>
                         in (None, this)))
            | _ \<Rightarrow> (Some (TypeError ''this.userId.split is not a function''), this)))"

definition getId :: "matrix_user \<Rightarrow> jsstring" where
  "getId this = userId this"

text \<open>
  \<open>set\<close> and \<open>serialize\<close> on the bag as the map of its own properties, for a bag that
  takes the assignment and a key that is stored as an own property (any key but
  \<open>__proto__\<close>, which goes to the inherited setter). The attributes that can make a bag
  refuse the assignment of \<open>serialize\<close> are added in \<open>serialize_object\<close> below.
\<close>

definition set_js :: "jsstring \<Rightarrow> jsval \<Rightarrow> matrix_user \<Rightarrow> matrix_user" where
  "set_js key val this = this\<lparr>u_data := (u_data this)(key \<mapsto> val)\<rparr>"

text \<open>
  \<open>serialize\<close> writes the localpart into the bag and returns the bag: the result is the
  returned mapping together with the instance after the call.
\<close>

definition serialize :: "matrix_user \<Rightarrow> bag \<times> matrix_user" where
  "serialize this =
     (let this = this\<lparr>u_data := (u_data this)(ustr ''localpart'' \<mapsto> JStr (localpart this))\<rparr>
      in (u_data this, this))"

text \<open>
  The instance with the attributes of its bag. The bag is a plain object with data properties
  whose prototype is \<open>Object.prototype\<close>, which has no property \<open>localpart\<close>.
  \<open>readonly\<close> holds the names of its properties that are not writable, and
  \<open>extensible\<close> is false after \<open>Object.preventExtensions\<close>, \<open>Object.seal\<close> or
  \<open>Object.freeze\<close>. The source file has no \<open>use strict\<close>: where the assignment
  \<open>this._data.localpart = this.localpart\<close> cannot be made (the property exists and is not
  writable, or it does not exist and the bag is not extensible) it is skipped without an error,
  and \<open>serialize\<close> returns the bag as it was.
\<close>

record user_object =
  user :: matrix_user
  readonly :: "jsstring set"
  extensible :: bool

definition localpartAssignable :: "user_object \<Rightarrow> bool" where
  "localpartAssignable this =
     (case u_data (user this) (ustr ''localpart'') of
        Some v \<Rightarrow> ustr ''localpart'' \<notin> readonly this
      | None \<Rightarrow> extensible this)"

definition serialize_object :: "user_object \<Rightarrow> bag \<times> user_object" where
  "serialize_object this =
     (if localpartAssignable this
      then (let (m, u) = serialize (user this) in (m, this\<lparr>user := u\<rparr>))
      else (u_data (user this), this))"

section \<open>RemoteRoom\<close>

record remote_room =
  roomId :: jsval
  data :: jsval

definition RemoteRoom :: "jsval \<Rightarrow> jsval \<Rightarrow> remote_room" where
  "RemoteRoom identifier dat = \<lparr>roomId = identifier, data = orEmptyObject dat\<rparr>"

definition RemoteRoom_getId :: "remote_room \<Rightarrow> jsval" where
  "RemoteRoom_getId this = roomId this"

definition RemoteRoom_serialize :: "remote_room \<Rightarrow> jsval" where
  "RemoteRoom_serialize this = data this"

section \<open>Auxiliary notions for the proofs\<close>

text \<open>
  These are not functions of the source. \<open>escapeSeq c\<close> is the text that replaces an
  occurrence of \<open>c\<close>. \<open>canonical D s\<close> reads \<open>s\<close> once from the left and
  replaces every element of \<open>D\<close> it meets. \<open>disjointTargets D\<close> says that the
  elements of \<open>D\<close> lie outside the allowed class and that no half of a surrogate pair of
  \<open>D\<close> is itself an element of \<open>D\<close>. \<open>userIdInvariant\<close> is the invariant of the
  data model: the user id is \<open>@\<close>, the localpart, \<open>:\<close> and the host, where an undefined
  host is converted to a string as the concatenation does. \<open>wellFormed s\<close> says that
  \<open>s\<close> is well-formed UTF-16: every high surrogate is followed by a low surrogate and no
  low surrogate stands alone. \<open>fromHex\<close> reads a string of hexadecimal digits as a number.
\<close>

definition escapeSeq :: "codepoint \<Rightarrow> jsstring" where
  "escapeSeq c = 0x3D # toString16 (charCodeAt0 c)"

fun canonical :: "codepoint set \<Rightarrow> jsstring \<Rightarrow> jsstring" where
  "canonical D [] = []"
| "canonical D [x] = (if Single x \<in> D then escapeSeq (Single x) else [x])"
| "canonical D (x # y # r) =
     (if Surrogates x y \<in> D then escapeSeq (Surrogates x y) @ canonical D r
      else if Single x \<in> D then escapeSeq (Single x) @ canonical D (y # r)
      else x # canonical D (y # r))"

definition disjointTargets :: "codepoint set \<Rightarrow> bool" where
  "disjointTargets D \<longleftrightarrow>
     (\<forall>c. Single c \<in> D \<longrightarrow> \<not> allowedUnit c) \<and>
     (\<forall>h l. Surrogates h l \<in> D \<longrightarrow>
        isHighSurrogate h \<and> isLowSurrogate l \<and> Single h \<notin> D \<and> Single l \<notin> D)"

fun wellFormed :: "jsstring \<Rightarrow> bool" where
  "wellFormed [] = True"
| "wellFormed [c] = (\<not> isHighSurrogate c \<and> \<not> isLowSurrogate c)"
| "wellFormed (c # d # s) =
     (if isHighSurrogate c then isLowSurrogate d \<and> wellFormed s
      else \<not> isLowSurrogate c \<and> wellFormed (d # s))"

definition hexValue :: "code_unit \<Rightarrow> nat" where
  "hexValue c = (if c \<le> 0x39 then unat c - 0x30 else unat c - 0x57)"

definition fromHex :: "jsstring \<Rightarrow> nat" where
  "fromHex s = foldl (\<lambda>a d. 16 * a + hexValue d) 0 s"

definition userIdInvariant :: "matrix_user \<Rightarrow> bool" where
  "userIdInvariant this \<longleftrightarrow>
     userId this = ustr ''@'' @ localpart this @ ustr '':'' @ toStr (host this)"

section \<open>Characters and hexadecimal digits\<close>

lemma allowedUnit_eq: "allowedUnit 0x3D"
  by (simp add: allowedUnit_def)

lemma allowedUnit_hexDigit: "d < 16 \<Longrightarrow> allowedUnit (hexDigit d)"
proof -
  assume "d < 16"
  then have "d \<in> {0,1,2,3,4,5,6,7,8,9,10,11,12,13,14,15}" by simp arith
  then show ?thesis
    by (auto simp: allowedUnit_def hexDigit_def)
qed

lemma allowedUnit_toString16: "c \<in> set (toString16 n) \<Longrightarrow> allowedUnit c"
proof (induction n arbitrary: c rule: toString16.induct)
  case (1 n)
  show ?case
  proof (cases "n < 16")
    case True
    with "1.prems" show ?thesis
      by (simp add: toString16.simps [of n] allowedUnit_hexDigit)
  next
    case False
    with "1.prems" have "c \<in> set (toString16 (n div 16)) \<or> c = hexDigit (n mod 16)"
      by (auto simp: toString16.simps [of n])
    then show ?thesis
      using "1.IH" False allowedUnit_hexDigit [of "n mod 16"] by auto
  qed
qed

lemma surrogate_not_allowed: "isHighSurrogate c \<or> isLowSurrogate c \<Longrightarrow> \<not> allowedUnit c"
  by (auto simp: isHighSurrogate_def isLowSurrogate_def allowedUnit_def word_le_nat_alt)

lemma high_not_low: "isHighSurrogate c \<Longrightarrow> \<not> isLowSurrogate c"
  by (auto simp: isHighSurrogate_def isLowSurrogate_def word_le_nat_alt)

lemma toString16_two_digits:
  "16 \<le> n \<Longrightarrow> n < 256 \<Longrightarrow> toString16 n = [hexDigit (n div 16), hexDigit (n mod 16)]"
  by (simp add: toString16.simps [of n] toString16.simps [of "n div 16"] less_mult_imp_div_less)

lemma hexValue_hexDigit: "d < 16 \<Longrightarrow> hexValue (hexDigit d) = d"
proof -
  assume "d < 16"
  then have "d \<in> {0,1,2,3,4,5,6,7,8,9,10,11,12,13,14,15}" by simp arith
  then show ?thesis
    by (auto simp: hexValue_def hexDigit_def)
qed

lemma fromHex_snoc: "fromHex (s @ [d]) = 16 * fromHex s + hexValue d"
  by (simp add: fromHex_def)

lemma fromHex_toString16: "fromHex (toString16 n) = n"
proof (induction n rule: toString16.induct)
  case (1 n)
  show ?case
  proof (cases "n < 16")
    case True
    then show ?thesis
      by (simp add: toString16.simps [of n] fromHex_def hexValue_hexDigit)
  next
    case False
    then have "fromHex (toString16 n) = 16 * fromHex (toString16 (n div 16)) + hexValue (hexDigit (n mod 16))"
      by (simp add: toString16.simps [of n] fromHex_snoc)
    then show ?thesis
      using "1.IH" False by (simp add: hexValue_hexDigit)
  qed
qed

lemma lowercase_toString16: "c \<in> set (toString16 n) \<Longrightarrow> c \<in> set (ustr ''0123456789abcdef'')"
proof (induction n arbitrary: c rule: toString16.induct)
  case (1 n)
  have hd: "\<And>d. d < 16 \<Longrightarrow> hexDigit d \<in> set (ustr ''0123456789abcdef'')"
  proof -
    fix d :: nat assume "d < 16"
    then have "d \<in> {0,1,2,3,4,5,6,7,8,9,10,11,12,13,14,15}" by simp arith
    then show "hexDigit d \<in> set (ustr ''0123456789abcdef'')"
      by (auto simp: hexDigit_def ustr_def)
  qed
  show ?case
  proof (cases "n < 16")
    case True
    with "1.prems" show ?thesis
      by (simp add: toString16.simps [of n] hd)
  next
    case False
    with "1.prems" have "c \<in> set (toString16 (n div 16)) \<or> c = hexDigit (n mod 16)"
      by (auto simp: toString16.simps [of n])
    then show ?thesis
      using "1.IH" False hd [of "n mod 16"] by auto
  qed
qed

section \<open>Replacement of a literal\<close>

lemma escapeChar_alt: "escapeChar c res = replaceAll (units c) (escapeSeq c) res"
  by (simp add: escapeChar_def escapeSeq_def)

lemma allowed_escapeSeq: "u \<in> set (escapeSeq c) \<Longrightarrow> allowedUnit u"
  using allowedUnit_toString16 allowedUnit_eq by (auto simp: escapeSeq_def)

lemma replaceAll_skip:
  "pat \<noteq> [] \<Longrightarrow> hd pat \<notin> set pre \<Longrightarrow> replaceAll pat rep (pre @ s) = pre @ replaceAll pat rep s"
proof (induction pre)
  case Nil
  then show ?case by simp
next
  case (Cons a pre)
  then have "take (length pat) (a # pre @ s) \<noteq> pat"
    by (cases pat) auto
  with Cons show ?case
    by (simp add: replaceAll.simps(2))
qed

lemma replaceAll_unit:
  "replaceAll [c] rep (x # s) = (if x = c then rep else [x]) @ replaceAll [c] rep s"
  by (simp add: replaceAll.simps(2))

lemma replaceAll_pair_hit:
  "replaceAll [h, l] rep (h # l # s) = rep @ replaceAll [h, l] rep s"
  by (simp add: replaceAll.simps(2))

lemma replaceAll_pair_miss:
  "s = [] \<or> hd s \<noteq> l \<Longrightarrow> replaceAll [h, l] rep (x # s) = x # replaceAll [h, l] rep s"
  by (cases s) (auto simp: replaceAll.simps(2))

lemma replaceAll_escapeSeq:
  "\<not> allowedUnit (hd (units c)) \<Longrightarrow>
   replaceAll (units c) rep (escapeSeq d @ s) = escapeSeq d @ replaceAll (units c) rep s"
proof -
  assume a: "\<not> allowedUnit (hd (units c))"
  have "units c \<noteq> []" by (cases c) simp_all
  moreover have "hd (units c) \<notin> set (escapeSeq d)"
    using a allowed_escapeSeq by blast
  ultimately show ?thesis by (rule replaceAll_skip)
qed

section \<open>One replacement extends the canonical form\<close>

lemma canonical_empty: "canonical {} s = s"
  by (induction "{} :: codepoint set" s rule: canonical.induct) simp_all

lemma canonical_head:
  "canonical D (y # r) \<noteq> [] \<and> (hd (canonical D (y # r)) = y \<or> allowedUnit (hd (canonical D (y # r))))"
  by (cases r) (auto simp: escapeSeq_def allowedUnit_eq)

lemma disjointTargets_subset: "disjointTargets D \<Longrightarrow> D' \<subseteq> D \<Longrightarrow> disjointTargets D'"
  unfolding disjointTargets_def by blast

lemma escapeChar_canonical_unit:
  assumes "disjointTargets (insert (Single u) D)"
  shows "escapeChar (Single u) (canonical D s) = canonical (insert (Single u) D) s"
proof -
  from assms have nu: "\<not> allowedUnit u"
    and np: "\<And>h l. Surrogates h l \<in> D \<Longrightarrow> h \<noteq> u \<and> l \<noteq> u"
    unfolding disjointTargets_def by auto
  have sk: "\<And>d t. replaceAll [u] (escapeSeq (Single u)) (escapeSeq d @ t)
      = escapeSeq d @ replaceAll [u] (escapeSeq (Single u)) t"
    using replaceAll_escapeSeq [of "Single u"] nu by simp
  have "replaceAll [u] (escapeSeq (Single u)) (canonical D s) = canonical (insert (Single u) D) s"
  proof (induction D s rule: canonical.induct)
    case (1 D)
    then show ?case by simp
  next
    case (2 D x)
    then show ?case
      using sk [of "Single x" "[]"] by (auto simp: replaceAll_unit)
  next
    case (3 D x y r)
    then show ?case
      using sk [of "Surrogates x y" "canonical D r"] sk [of "Single x" "canonical D (y # r)"]
      by (auto simp: replaceAll_unit)
  qed
  then show ?thesis by (simp add: escapeChar_alt)
qed

lemma escapeChar_canonical_pair:
  assumes dt: "disjointTargets (insert (Surrogates h l) D)" and fresh: "Surrogates h l \<notin> D"
  shows "escapeChar (Surrogates h l) (canonical D s) = canonical (insert (Surrogates h l) D) s"
proof -
  let ?rep = "escapeSeq (Surrogates h l)"
  let ?D' = "insert (Surrogates h l) D"
  from dt have hi: "isHighSurrogate h" and lo: "isLowSurrogate l"
    and uh: "Single h \<notin> D" and ul: "Single l \<notin> D"
    and pl: "\<And>z. Surrogates l z \<notin> D"
    unfolding disjointTargets_def using high_not_low by auto
  have nh: "\<not> allowedUnit h" and nl: "\<not> allowedUnit l"
    using hi lo surrogate_not_allowed by auto
  have sk: "\<And>d t. replaceAll [h, l] ?rep (escapeSeq d @ t) = escapeSeq d @ replaceAll [h, l] ?rep t"
    using replaceAll_escapeSeq [of "Surrogates h l"] nh by simp
  have low_stays: "\<And>r. canonical D (l # r) = l # canonical D r"
  proof -
    fix r show "canonical D (l # r) = l # canonical D r"
      using ul pl by (cases r) simp_all
  qed
  have "replaceAll [h, l] ?rep (canonical D s) = canonical ?D' s"
  proof (induction s rule: length_induct)
    case (1 s)
    show ?case
    proof (cases s)
      case Nil
      then show ?thesis by simp
    next
      case (Cons x t)
      note s = Cons
      show ?thesis
      proof (cases t)
        case Nil
        with s show ?thesis
          using sk [of "Single x" "[]"] by (auto simp: replaceAll.simps(2))
      next
        case (Cons y r)
        have ih_r: "replaceAll [h, l] ?rep (canonical D r) = canonical ?D' r"
          using "1.IH" s Cons by simp
        have ih_yr: "replaceAll [h, l] ?rep (canonical D (y # r)) = canonical ?D' (y # r)"
          using "1.IH" s Cons by simp
        consider (a) "Surrogates x y \<in> D" | (b) "Surrogates x y \<notin> D" "x = h" "y = l"
          | (c) "Surrogates x y \<notin> D" "\<not> (x = h \<and> y = l)" "Single x \<in> D"
          | (d) "Surrogates x y \<notin> D" "\<not> (x = h \<and> y = l)" "Single x \<notin> D"
          by blast
        then show ?thesis
        proof cases
          case a
          then show ?thesis
            using s Cons sk [of "Surrogates x y" "canonical D r"] ih_r by simp
        next
          case b
          then have "canonical D (x # y # r) = h # l # canonical D r"
            using uh low_stays [of r] by simp
          then show ?thesis
            using s Cons b ih_r by (simp add: replaceAll_pair_hit)
        next
          case c
          then show ?thesis
            using s Cons sk [of "Single x" "canonical D (y # r)"] ih_yr by auto
        next
          case d
          have "canonical D (y # r) = [] \<or> hd (canonical D (y # r)) \<noteq> l \<or> x \<noteq> h"
            using canonical_head [of D y r] d(2) nl by auto
          then have "replaceAll [h, l] ?rep (x # canonical D (y # r))
              = x # replaceAll [h, l] ?rep (canonical D (y # r))"
            using replaceAll_pair_miss [of "canonical D (y # r)" l h ?rep x]
              replaceAll_skip [of "[h, l]" "[x]" ?rep "canonical D (y # r)"] by auto
          then show ?thesis
            using s Cons d ih_yr by auto
        qed
      qed
    qed
  qed
  then show ?thesis by (simp add: escapeChar_alt)
qed

lemma escapeChar_canonical:
  assumes "disjointTargets (insert c D)" and "c \<notin> D"
  shows "escapeChar c (canonical D s) = canonical (insert c D) s"
  using assms escapeChar_canonical_unit escapeChar_canonical_pair by (cases c) auto

lemma fold_escapeChar_canonical:
  "disjointTargets (set cs) \<Longrightarrow> distinct cs \<Longrightarrow> fold escapeChar cs s = canonical (set cs) s"
proof (induction cs rule: rev_induct)
  case Nil
  then show ?case by (simp add: canonical_empty)
next
  case (snoc c cs)
  have "disjointTargets (set cs)"
    using snoc.prems(1) by (rule disjointTargets_subset) auto
  then have "fold escapeChar cs s = canonical (set cs) s"
    using snoc by simp
  moreover have "escapeChar c (canonical (set cs) s) = canonical (insert c (set cs)) s"
    using snoc.prems by (intro escapeChar_canonical) auto
  ultimately show ?case by simp
qed

lemma escapeInOrder_canonical:
  assumes "disjointTargets (set cs)" and "distinct cs"
  shows "escapeInOrder cs lp = canonical (set cs) lp"
  using assms by (simp add: escapeInOrder_def fold_escapeChar_canonical)

section \<open>The set of disallowed characters\<close>

lemma fold_setAdd: "set (fold setAdd xs acc) = set xs \<union> set acc \<and> (distinct acc \<longrightarrow> distinct (fold setAdd xs acc))"
  by (induction xs arbitrary: acc) (auto simp: setAdd_def)

lemma set_newSet: "set (newSet xs) = set xs"
  by (simp add: newSet_def fold_setAdd)

lemma distinct_newSet: "distinct (newSet xs)"
  by (simp add: newSet_def fold_setAdd)

lemma stringIterator_Single: "Single c \<in> set (stringIterator s) \<Longrightarrow> c \<in> set s"
  by (induction s rule: stringIterator.induct) (auto split: if_splits)

lemma stringIterator_Surrogates:
  "Surrogates h l \<in> set (stringIterator s) \<Longrightarrow>
     isHighSurrogate h \<and> isLowSurrogate l \<and> h \<in> set s \<and> l \<in> set s"
  by (induction s rule: stringIterator.induct) (auto split: if_splits)

lemma stringIterator_no_high:
  "\<forall>c\<in>set s. \<not> isHighSurrogate c \<Longrightarrow> stringIterator s = map Single s"
  by (induction s rule: stringIterator.induct) auto

lemma badChars_Single: "Single c \<in> set (badChars lp) \<Longrightarrow> \<not> allowedUnit c"
  using stringIterator_Single [of c "removeAllowed lp"]
  by (simp add: badChars_def set_newSet removeAllowed_def)

lemma badChars_Surrogates:
  "Surrogates h l \<in> set (badChars lp) \<Longrightarrow> isHighSurrogate h \<and> isLowSurrogate l"
  using stringIterator_Surrogates [of h l "removeAllowed lp"]
  by (simp add: badChars_def set_newSet)

lemma distinct_badChars: "distinct (badChars lp)"
  by (simp add: badChars_def distinct_newSet)

lemma disjointTargets_badChars:
  assumes "\<forall>h l. Surrogates h l \<in> set (badChars lp) \<longrightarrow>
             Single h \<notin> set (badChars lp) \<and> Single l \<notin> set (badChars lp)"
  shows "disjointTargets (set (badChars lp))"
  unfolding disjointTargets_def
  using assms badChars_Single badChars_Surrogates by blast

lemma badChars_no_surrogates:
  assumes "\<forall>c\<in>set lp. \<not> isHighSurrogate c"
  shows "set (badChars lp) = Single ` {c \<in> set lp. \<not> allowedUnit c}"
proof -
  have "\<forall>c\<in>set (removeAllowed lp). \<not> isHighSurrogate c"
    using assms by (simp add: removeAllowed_def)
  then have "stringIterator (removeAllowed lp) = map Single (removeAllowed lp)"
    by (rule stringIterator_no_high)
  then show ?thesis
    by (auto simp: badChars_def set_newSet removeAllowed_def)
qed

lemma canonical_Singles:
  assumes "\<And>h l. Surrogates h l \<notin> D"
    and "\<And>x. x \<in> set s \<Longrightarrow> (Single x \<in> D \<longleftrightarrow> \<not> allowedUnit x)"
  shows "canonical D s = concat (map (\<lambda>c. if allowedUnit c then [c] else escapeSeq (Single c)) s)"
  using assms by (induction D s rule: canonical.induct) auto

lemma wellFormed_Cons:
  "\<not> isHighSurrogate c \<Longrightarrow> \<not> isLowSurrogate c \<Longrightarrow> wellFormed t \<Longrightarrow> wellFormed (c # t)"
  by (cases t) auto

lemma wellFormed_removeAllowed: "wellFormed s \<Longrightarrow> wellFormed (removeAllowed s)"
proof (induction s rule: wellFormed.induct)
  case 1
  then show ?case by (simp add: removeAllowed_def)
next
  case (2 c)
  then show ?case by (simp add: removeAllowed_def)
next
  case (3 c d s)
  show ?case
  proof (cases "isHighSurrogate c")
    case True
    with 3 have "isLowSurrogate d" and "wellFormed (removeAllowed s)" by auto
    moreover have "\<not> allowedUnit c" "\<not> allowedUnit d"
      using True \<open>isLowSurrogate d\<close> surrogate_not_allowed by auto
    ultimately show ?thesis using True by (simp add: removeAllowed_def)
  next
    case False
    with 3 have nl: "\<not> isLowSurrogate c" and wf: "wellFormed (removeAllowed (d # s))" by auto
    show ?thesis
    proof (cases "allowedUnit c")
      case True
      then show ?thesis using wf by (simp add: removeAllowed_def)
    next
      case na: False
      have "wellFormed (c # removeAllowed (d # s))"
        using False nl wf by (rule wellFormed_Cons)
      then show ?thesis using na by (simp add: removeAllowed_def)
    qed
  qed
qed

lemma wellFormed_stringIterator:
  "wellFormed s \<Longrightarrow> Single c \<in> set (stringIterator s) \<Longrightarrow>
     \<not> isHighSurrogate c \<and> \<not> isLowSurrogate c"
  by (induction s rule: stringIterator.induct) (auto split: if_splits)

lemma wellFormed_no_split_surrogates:
  assumes "wellFormed lp"
  shows "\<forall>h l. Surrogates h l \<in> set (badChars lp) \<longrightarrow>
           Single h \<notin> set (badChars lp) \<and> Single l \<notin> set (badChars lp)"
proof (intro allI impI)
  fix h l assume "Surrogates h l \<in> set (badChars lp)"
  then have hl: "isHighSurrogate h \<and> isLowSurrogate l" by (rule badChars_Surrogates)
  have wf: "wellFormed (removeAllowed lp)" using assms by (rule wellFormed_removeAllowed)
  have "\<And>c. Single c \<in> set (badChars lp) \<Longrightarrow> \<not> isHighSurrogate c \<and> \<not> isLowSurrogate c"
    using wellFormed_stringIterator [OF wf] by (simp add: badChars_def set_newSet)
  then show "Single h \<notin> set (badChars lp) \<and> Single l \<notin> set (badChars lp)"
    using hl by blast
qed

section \<open>Splitting and construction\<close>

lemma splitOn_not_Nil: "splitOn sep s \<noteq> []"
  by (induction s) (auto split: list.splits)

lemma index_splitOn_0: "index (splitOn sep s) 0 = Some (hd (splitOn sep s))"
  using splitOn_not_Nil [of sep s] by (simp add: index_def hd_conv_nth)

lemma splitOn_no_sep: "sep \<notin> set s \<Longrightarrow> splitOn sep s = [s]"
  by (induction s) auto

lemma splitOn_first: "sep \<notin> set l \<Longrightarrow> splitOn sep (l @ sep # r) = l # splitOn sep r"
  by (induction l) auto

lemma MatrixUser_accepts:
  assumes "uid \<noteq> []" and "\<not> (truthy d \<and> objectToString d \<noteq> ''[object Object]'')"
  shows "MatrixUser (Some uid) d e =
           Inr ((if e then escapeUserId else id)
                  \<lparr>userId = uid, localpart = substring 1 (hd (splitOn 0x3A uid)),
                   host = index (splitOn 0x3A uid) 1, u_data = Map.empty\<rparr>
                \<lparr>u_data := properties (orEmptyObject d)\<rparr>)"
  using assms by (simp add: MatrixUser_def Let_def index_splitOn_0)

lemma MatrixUser_body_agrees:
  "MatrixUser_body (JStr uid) d e fresh =
     (case MatrixUser (Some uid) d e of
        Inl err \<Rightarrow> (Some err, fresh)
      | Inr u \<Rightarrow> (None, \<lparr>uc_userId = Some (JStr (userId u)), uc_localpart = Some (localpart u),
                         uc_host = Some (host u), uc_data = Some (u_data u)\<rparr>))"
  by (simp add: MatrixUser_body_def MatrixUser_def Let_def index_splitOn_0 fresh_def
      escapeUserId_def)

lemma MatrixUser_body_absent:
  "MatrixUser_body JUndefined d e fresh =
     (case MatrixUser None d e of Inl err \<Rightarrow> (Some err, fresh) | Inr u \<Rightarrow> (None, fresh))"
  by (simp add: MatrixUser_body_def MatrixUser_def)

lemma serialize_object_assignable:
  "localpartAssignable this \<Longrightarrow>
     serialize_object this
       = (fst (serialize (user this)), this\<lparr>user := snd (serialize (user this))\<rparr>)"
  by (simp add: serialize_object_def serialize_def Let_def)

lemma escapeLocalpart_allowed:
  assumes "\<forall>c\<in>set lp. allowedUnit c"
  shows "escapeLocalpart lp = lp"
proof -
  have "removeAllowed lp = []"
    using assms by (simp add: removeAllowed_def)
  then show ?thesis
    by (simp add: escapeLocalpart_def badChars_def newSet_def escapeInOrder_def)
qed

lemma localpart_escapeUserId: "localpart (escapeUserId u) = escapeLocalpart (localpart u)"
  by (simp add: escapeUserId_def Let_def)

lemma invariant_escapeUserId: "userIdInvariant (escapeUserId u)"
  by (simp add: escapeUserId_def userIdInvariant_def Let_def)

section \<open>Evaluation on concrete inputs\<close>

lemmas escape_eval = escapeLocalpart_def badChars_def removeAllowed_def allowedUnit_def newSet_def
  setAdd_def escapeInOrder_def escapeChar_def toString16.simps hexDigit_def replaceAll.simps(2)
  ustr_def isHighSurrogate_def isLowSurrogate_def

lemmas ctor_eval = MatrixUser_def Let_def index_def substring_def escapeUserId_def orEmptyObject_def

section \<open>The claims\<close>

text \<open>
  Claim C1. As stated (every disallowed character becomes \<open>=\<close> and two hexadecimal
  digits, also above 0xFF) the claim fails: \<open>toString(16)\<close> prints as many digits as the
  code unit needs, and U+0101 takes three. On the two-character localpart \<open>/\<close>, U+0101
  the result is \<open>=2f=101\<close>. (The character \<open>/\<close> is escaped there although the claim
  lists it as allowed; the amended claim says nothing about it.)
\<close>

theorem escapeLocalpart_two_digit_counterexample:
  "escapeLocalpart [0x2F, 0x101] = ustr ''=2f=101''"
  by (simp add: escape_eval)

text \<open>
  Claim C1, amended. For every localpart without surrogate code units and without \<open>/\<close>,
  whose disallowed code units are at least 0x10: every code unit outside \<open>A-Z\<close>,
  \<open>a-z\<close>, \<open>0-9\<close>, \<open>-\<close>, \<open>.\<close>, \<open>=\<close>, \<open>_\<close> is replaced, at every occurrence,
  by \<open>=\<close> followed by the lowercase hexadecimal digits of the code unit, and the allowed
  code units are kept. The digits are among \<open>0-9\<close> and \<open>a-f\<close>, they read back as the
  code unit, and they are exactly two for code units up to 0xFF.
\<close>

theorem escapeLocalpart_encoding:
  assumes "\<forall>c\<in>set lp. \<not> isHighSurrogate c \<and> \<not> isLowSurrogate c"
    and "\<forall>c\<in>set lp. allowedUnit c \<or> 0x10 \<le> c"
    and "0x2F \<notin> set lp"
  shows "escapeLocalpart lp
           = concat (map (\<lambda>c. if allowedUnit c then [c] else 0x3D # toString16 (unat c)) lp)
         \<and> (\<forall>c\<in>set lp. \<not> allowedUnit c \<and> c \<le> 0xFF \<longrightarrow>
               toString16 (unat c) = [hexDigit (unat c div 16), hexDigit (unat c mod 16)])
         \<and> (\<forall>c\<in>set lp. fromHex (toString16 (unat c)) = unat c
               \<and> set (toString16 (unat c)) \<subseteq> set (ustr ''0123456789abcdef''))"
proof -
  have nh: "\<forall>c\<in>set lp. \<not> isHighSurrogate c" using assms(1) by simp
  have bc: "set (badChars lp) = Single ` {c \<in> set lp. \<not> allowedUnit c}"
    using nh by (rule badChars_no_surrogates)
  have dt: "disjointTargets (set (badChars lp))"
    unfolding disjointTargets_def bc by auto
  have "escapeLocalpart lp = canonical (set (badChars lp)) lp"
    using escapeInOrder_canonical [of "badChars lp" lp] dt distinct_badChars
    by (simp add: escapeLocalpart_def)
  also have "\<dots> = concat (map (\<lambda>c. if allowedUnit c then [c] else escapeSeq (Single c)) lp)"
    by (rule canonical_Singles) (auto simp: bc)
  finally have enc: "escapeLocalpart lp
      = concat (map (\<lambda>c. if allowedUnit c then [c] else 0x3D # toString16 (unat c)) lp)"
    by (simp add: escapeSeq_def cong: if_cong)
  have two: "\<forall>c\<in>set lp. \<not> allowedUnit c \<and> c \<le> 0xFF \<longrightarrow>
               toString16 (unat c) = [hexDigit (unat c div 16), hexDigit (unat c mod 16)]"
  proof (intro ballI impI)
    fix c assume c: "c \<in> set lp" and "\<not> allowedUnit c \<and> c \<le> 0xFF"
    then have "0x10 \<le> c" and "c \<le> 0xFF" using assms(2) by auto
    then have "16 \<le> unat c" and "unat c < 256"
      by (simp_all add: word_le_nat_alt)
    then show "toString16 (unat c) = [hexDigit (unat c div 16), hexDigit (unat c mod 16)]"
      by (rule toString16_two_digits)
  qed
  have hex: "\<forall>c\<in>set lp. fromHex (toString16 (unat c)) = unat c
               \<and> set (toString16 (unat c)) \<subseteq> set (ustr ''0123456789abcdef'')"
    using fromHex_toString16 lowercase_toString16 by blast
  from enc two hex show ?thesis by blast
qed

text \<open>
  The theorem at the localpart \<open>f\<close>, space, U+0101.
\<close>

theorem escapeLocalpart_encoding_witness:
  "list_all (\<lambda>c. \<not> isHighSurrogate c \<and> \<not> isLowSurrogate c) [0x66, 0x20, 0x101]
   \<and> list_all (\<lambda>c. allowedUnit c \<or> 0x10 \<le> c) [0x66, 0x20, 0x101]
   \<and> 0x2F \<notin> set [0x66, 0x20, 0x101 :: code_unit]
   \<and> escapeLocalpart [0x66, 0x20, 0x101] = ustr ''f=20=101''
   \<and> toString16 (unat (0x20 :: code_unit)) = ustr ''20''"
proof -
  have h1: "\<forall>c\<in>set [0x66, 0x20, 0x101 :: code_unit]. \<not> isHighSurrogate c \<and> \<not> isLowSurrogate c"
    by (simp add: isHighSurrogate_def isLowSurrogate_def)
  have h2: "\<forall>c\<in>set [0x66, 0x20, 0x101 :: code_unit]. allowedUnit c \<or> 0x10 \<le> c"
    by (simp add: allowedUnit_def)
  have h3: "0x2F \<notin> set [0x66, 0x20, 0x101 :: code_unit]"
    by simp
  note t = escapeLocalpart_encoding [OF h1 h2 h3]
  from t have "escapeLocalpart [0x66, 0x20, 0x101] = ustr ''f=20=101''"
    by (simp add: allowedUnit_def toString16.simps hexDigit_def ustr_def)
  moreover from t have "toString16 (unat (0x20 :: code_unit)) = ustr ''20''"
    by (simp add: allowedUnit_def hexDigit_def ustr_def)
  ultimately show ?thesis using h1 h2 h3 by (simp add: list_all_iff)
qed

text \<open>
  Claim C2. The host is \<open>split[1]\<close>, the text between the first and the second colon,
  not everything after the first colon: for the user id \<open>@alice:example.com:8448\<close> the
  host is \<open>example.com\<close>, and with escaping the user id is rebuilt without the port.
\<close>

theorem MatrixUser_host_drops_port:
  "host (projr (MatrixUser (Some (ustr ''@alice:example.com:8448'')) JUndefined False))
     = Some (ustr ''example.com'')
   \<and> getId (projr (MatrixUser (Some (ustr ''@alice:example.com:8448'')) JUndefined True))
     = ustr ''@alice:example.com''"
  by (simp add: ctor_eval escape_eval getId_def)

text \<open>
  Claim C3. As stated (any user id, escape true or false) the invariant fails: without
  escaping the user id is stored as given, and \<open>alice:example.com\<close> has the localpart
  \<open>lice\<close>.
\<close>

theorem userId_invariant_counterexample:
  "\<not> userIdInvariant (projr (MatrixUser (Some (ustr ''alice:example.com'')) JUndefined False))"
  by (simp add: ctor_eval userIdInvariant_def ustr_def)

text \<open>
  Claim C3, amended. The invariant holds after every run of the escaping step, hence after
  every successful construction with escape true; after a construction with escape false it
  holds when the user id is \<open>@\<close>, a localpart without colon, \<open>:\<close>, and a host without
  colon.
\<close>

theorem userId_invariant:
  "userIdInvariant (escapeUserId u)
   \<and> (MatrixUser user_id d True = Inr v \<longrightarrow> userIdInvariant v)
   \<and> (0x3A \<notin> set l \<and> 0x3A \<notin> set h
        \<and> MatrixUser (Some (ustr ''@'' @ l @ ustr '':'' @ h)) d False = Inr w
      \<longrightarrow> userIdInvariant w)"
proof (intro conjI impI)
  show "userIdInvariant (escapeUserId u)" by (rule invariant_escapeUserId)
next
  assume "MatrixUser user_id d True = Inr v"
  then obtain t where "v = (escapeUserId t)\<lparr>u_data := properties (orEmptyObject d)\<rparr>"
    by (auto simp: MatrixUser_def Let_def index_splitOn_0 split: option.splits if_splits)
  then show "userIdInvariant v"
    using invariant_escapeUserId [of t] by (simp add: userIdInvariant_def)
next
  assume a: "0x3A \<notin> set l \<and> 0x3A \<notin> set h
        \<and> MatrixUser (Some (ustr ''@'' @ l @ ustr '':'' @ h)) d False = Inr w"
  let ?uid = "ustr ''@'' @ l @ ustr '':'' @ h"
  have "splitOn 0x3A ((0x40 # l) @ 0x3A # h) = (0x40 # l) # splitOn 0x3A h"
    using a by (intro splitOn_first) auto
  then have sp: "splitOn 0x3A ?uid = [0x40 # l, h]"
    using a by (simp add: splitOn_no_sep ustr_def)
  have ok: "\<not> (truthy d \<and> objectToString d \<noteq> ''[object Object]'')"
    using a by (auto simp: MatrixUser_def ustr_def split: if_splits)
  have "?uid \<noteq> []" by (simp add: ustr_def)
  from MatrixUser_accepts [OF this ok, of False] a
  have "w = \<lparr>userId = ?uid, localpart = l, host = Some h,
              u_data = properties (orEmptyObject d)\<rparr>"
    by (simp add: sp index_def substring_def)
  then show "userIdInvariant w"
    by (simp add: userIdInvariant_def)
qed

text \<open>
  The theorem at the user id \<open>@foo bar:example.com\<close>, with and without escaping.
\<close>

theorem userId_invariant_witness:
  "userIdInvariant (escapeUserId \<lparr>userId = ustr ''@foo bar'', localpart = ustr ''foo bar'',
                                   host = None, u_data = Map.empty\<rparr>)
   \<and> MatrixUser (Some (ustr ''@foo bar:example.com'')) JUndefined True
       = Inr \<lparr>userId = ustr ''@foo=20bar:example.com'', localpart = ustr ''foo=20bar'',
              host = Some (ustr ''example.com''), u_data = Map.empty\<rparr>
   \<and> userIdInvariant \<lparr>userId = ustr ''@foo=20bar:example.com'', localpart = ustr ''foo=20bar'',
              host = Some (ustr ''example.com''), u_data = Map.empty\<rparr>
   \<and> 0x3A \<notin> set (ustr ''foo bar'') \<and> 0x3A \<notin> set (ustr ''example.com'')
   \<and> MatrixUser (Some (ustr ''@'' @ ustr ''foo bar'' @ ustr '':'' @ ustr ''example.com'')) JUndefined False
       = Inr \<lparr>userId = ustr ''@foo bar:example.com'', localpart = ustr ''foo bar'',
              host = Some (ustr ''example.com''), u_data = Map.empty\<rparr>
   \<and> userIdInvariant \<lparr>userId = ustr ''@foo bar:example.com'', localpart = ustr ''foo bar'',
              host = Some (ustr ''example.com''), u_data = Map.empty\<rparr>"
proof -
  have c1: "MatrixUser (Some (ustr ''@foo bar:example.com'')) JUndefined True
       = Inr \<lparr>userId = ustr ''@foo=20bar:example.com'', localpart = ustr ''foo=20bar'',
              host = Some (ustr ''example.com''), u_data = Map.empty\<rparr>"
    by (simp add: ctor_eval escape_eval)
  have c2: "0x3A \<notin> set (ustr ''foo bar'') \<and> 0x3A \<notin> set (ustr ''example.com'')
     \<and> MatrixUser (Some (ustr ''@'' @ ustr ''foo bar'' @ ustr '':'' @ ustr ''example.com'')) JUndefined False
       = Inr \<lparr>userId = ustr ''@foo bar:example.com'', localpart = ustr ''foo bar'',
              host = Some (ustr ''example.com''), u_data = Map.empty\<rparr>"
    by (simp add: ctor_eval ustr_def)
  note t = userId_invariant [of "\<lparr>userId = ustr ''@foo bar'', localpart = ustr ''foo bar'',
                                   host = None, u_data = Map.empty\<rparr>"
      "Some (ustr ''@foo bar:example.com'')" JUndefined
      "\<lparr>userId = ustr ''@foo=20bar:example.com'', localpart = ustr ''foo=20bar'',
              host = Some (ustr ''example.com''), u_data = Map.empty\<rparr>"
      "ustr ''foo bar''" "ustr ''example.com''"
      "\<lparr>userId = ustr ''@foo bar:example.com'', localpart = ustr ''foo bar'',
              host = Some (ustr ''example.com''), u_data = Map.empty\<rparr>"]
  show ?thesis using t c1 c2 by blast
qed

text \<open>
  Claim C4. As stated (null is rejected) the claim fails: the check is guarded by the
  truthiness of \<open>data\<close>, so \<open>null\<close> passes and is replaced by the empty mapping.
\<close>

theorem MatrixUser_null_data_counterexample:
  "\<not> isl (MatrixUser (Some (ustr ''@alice:example.com'')) JNull True)"
  by (simp add: ctor_eval ustr_def)

text \<open>
  Claim C4, amended. For every non-empty user id: a truthy \<open>data\<close> that is not a plain
  object (an array, a non-empty string, a non-zero number, \<open>true\<close>) is rejected with the
  error \<open>data arg must be an Object\<close>; a falsy \<open>data\<close> (\<open>undefined\<close>, \<open>null\<close>,
  \<open>false\<close>, \<open>0\<close>, \<open>NaN\<close>, the empty string) is accepted and replaced by the empty
  mapping; a plain object is accepted and becomes the bag.
\<close>

theorem MatrixUser_data_check:
  assumes "uid \<noteq> []"
  shows "(truthy d \<and> (\<forall>m. d \<noteq> JObj m) \<longrightarrow>
            MatrixUser (Some uid) d e = Inl (Error ''data arg must be an Object''))
       \<and> (\<not> truthy d \<longrightarrow>
            \<not> isl (MatrixUser (Some uid) d e)
            \<and> u_data (projr (MatrixUser (Some uid) d e)) = Map.empty)
       \<and> (\<forall>m. d = JObj m \<longrightarrow>
            \<not> isl (MatrixUser (Some uid) d e)
            \<and> u_data (projr (MatrixUser (Some uid) d e)) = m)"
proof -
  have "truthy d \<and> (\<forall>m. d \<noteq> JObj m) \<longrightarrow> objectToString d \<noteq> ''[object Object]''"
    by (cases d) auto
  then show ?thesis
    using assms
    by (auto simp: MatrixUser_def Let_def orEmptyObject_def index_splitOn_0)
qed

text \<open>
  The theorem at \<open>@alice:example.com\<close> with an array, a string, \<open>null\<close> and an empty
  object.
\<close>

theorem MatrixUser_data_check_witness:
  "ustr ''@alice:example.com'' \<noteq> []
   \<and> truthy (JArr []) \<and> JArr [] \<noteq> JObj Map.empty
   \<and> MatrixUser (Some (ustr ''@alice:example.com'')) (JArr []) True
       = Inl (Error ''data arg must be an Object'')
   \<and> MatrixUser (Some (ustr ''@alice:example.com'')) (JStr (ustr ''x'')) True
       = Inl (Error ''data arg must be an Object'')
   \<and> \<not> truthy JNull
   \<and> \<not> isl (MatrixUser (Some (ustr ''@alice:example.com'')) JNull True)
   \<and> u_data (projr (MatrixUser (Some (ustr ''@alice:example.com'')) JNull True)) = Map.empty
   \<and> \<not> isl (MatrixUser (Some (ustr ''@alice:example.com'')) (JObj Map.empty) True)"
proof -
  have ne: "ustr ''@alice:example.com'' \<noteq> []" by (simp add: ustr_def)
  have s: "truthy (JStr (ustr ''x''))" by (simp add: ustr_def)
  show ?thesis
    using ne s MatrixUser_data_check [OF ne, of "JArr []" True]
      MatrixUser_data_check [OF ne, of "JStr (ustr ''x'')" True]
      MatrixUser_data_check [OF ne, of JNull True]
      MatrixUser_data_check [OF ne, of "JObj Map.empty" True]
    by simp
qed

text \<open>
  Claim C5. As stated (a construction either succeeds or is rejected with no partial state)
  the claim fails: nothing checks that \<open>userId\<close> is a string, and for the number 42 the
  body assigns \<open>this.userId\<close> and then fails with a TypeError at
  \<open>this.userId.split\<close>.
\<close>

theorem MatrixUser_body_partial_state_counterexample:
  "MatrixUser_body (JNum 42) JUndefined True fresh
     = (Some (TypeError ''this.userId.split is not a function''),
        fresh\<lparr>uc_userId := Some (JNum 42)\<rparr>)
   \<and> fresh\<lparr>uc_userId := Some (JNum 42)\<rparr> \<noteq> fresh"
  by (simp add: MatrixUser_body_def Let_def fresh_def)

text \<open>
  Claim C5, amended. A construction with an absent or empty \<open>userId\<close> (any falsy value)
  fails with the error \<open>Missing user_id\<close>, whatever the other arguments are, and leaves
  the instance as it was before the first statement. For a \<open>userId\<close> that is a string or
  absent, a construction either assigns every property of the instance and raises nothing, or
  raises one of the two errors of the argument checks and leaves the instance as it was
  before the first statement.
\<close>

theorem MatrixUser_body_rejects_before_state:
  "(\<not> truthy user_id \<longrightarrow>
      MatrixUser_body user_id d e fresh = (Some (Error ''Missing user_id''), fresh))
   \<and> (\<not> truthy user_id \<or> (\<exists>s. user_id = JStr s) \<longrightarrow>
        fst (MatrixUser_body user_id d e fresh) = None
          \<and> complete (snd (MatrixUser_body user_id d e fresh))
        \<or> (fst (MatrixUser_body user_id d e fresh) = Some (Error ''Missing user_id'')
            \<or> fst (MatrixUser_body user_id d e fresh) = Some (Error ''data arg must be an Object''))
          \<and> snd (MatrixUser_body user_id d e fresh) = fresh)"
  by (auto simp: MatrixUser_body_def Let_def index_splitOn_0 complete_def fresh_def)

text \<open>
  The theorem at an absent and at an empty user id, and at \<open>@alice:example.com\<close> with
  no data and with an array as data.
\<close>

theorem MatrixUser_body_rejects_before_state_witness:
  "\<not> truthy JUndefined \<and> \<not> truthy (JStr [])
   \<and> MatrixUser_body JUndefined (JArr []) True fresh = (Some (Error ''Missing user_id''), fresh)
   \<and> MatrixUser_body (JStr []) JUndefined False fresh = (Some (Error ''Missing user_id''), fresh)
   \<and> fst (MatrixUser_body (JStr (ustr ''@alice:example.com'')) JUndefined True fresh) = None
   \<and> complete (snd (MatrixUser_body (JStr (ustr ''@alice:example.com'')) JUndefined True fresh))
   \<and> MatrixUser_body (JStr (ustr ''@alice:example.com'')) (JArr []) True fresh
       = (Some (Error ''data arg must be an Object''), fresh)"
proof -
  have a: "fst (MatrixUser_body (JStr (ustr ''@alice:example.com'')) JUndefined True fresh) = None"
    by (simp add: MatrixUser_body_def Let_def index_def ustr_def)
  have b: "MatrixUser_body (JStr (ustr ''@alice:example.com'')) (JArr []) True fresh
       = (Some (Error ''data arg must be an Object''), fresh)"
    by (simp add: MatrixUser_body_def ustr_def)
  show ?thesis
    using a b MatrixUser_body_rejects_before_state [of JUndefined "JArr []" True]
      MatrixUser_body_rejects_before_state [of "JStr []" JUndefined False]
      MatrixUser_body_rejects_before_state [of "JStr (ustr ''@alice:example.com'')" JUndefined True]
    by simp
qed

text \<open>
  Claim C6. As stated (every localpart) the claim fails: the set is built from code points
  and the replacement matches code units, so a lone surrogate of the set may be half of a
  surrogate pair of the set. For the localpart U+D83D U+DE00 U+D83D the set holds the pair and
  the lone high surrogate, and the two orders give different strings.
\<close>

theorem escapeInOrder_split_surrogate_counterexample:
  "badChars [0xD83D, 0xDE00, 0xD83D] = [Surrogates 0xD83D 0xDE00, Single 0xD83D]
   \<and> escapeInOrder [Surrogates 0xD83D 0xDE00, Single 0xD83D] [0xD83D, 0xDE00, 0xD83D]
       = ustr ''=d83d=d83d''
   \<and> escapeInOrder [Single 0xD83D, Surrogates 0xD83D 0xDE00] [0xD83D, 0xDE00, 0xD83D]
       = ustr ''=d83d'' @ [0xDE00] @ ustr ''=d83d''
   \<and> escapeInOrder [Surrogates 0xD83D 0xDE00, Single 0xD83D] [0xD83D, 0xDE00, 0xD83D]
       \<noteq> escapeInOrder [Single 0xD83D, Surrogates 0xD83D 0xDE00] [0xD83D, 0xDE00, 0xD83D]"
  by (simp add: escape_eval)

text \<open>
  Claim C6, amended. For every localpart that is well-formed UTF-16 (no lone surrogate), and
  more generally for every localpart in whose set of distinct disallowed characters no half
  of a surrogate pair is itself an element, the replacements made in any two orders of the
  set give the same string, which is the one the insertion order gives.
\<close>

theorem escapeInOrder_order_independent:
  assumes "set cs1 = set (badChars lp)" and "distinct cs1"
    and "set cs2 = set (badChars lp)" and "distinct cs2"
    and "wellFormed lp \<or>
         (\<forall>h l. Surrogates h l \<in> set (badChars lp) \<longrightarrow>
            Single h \<notin> set (badChars lp) \<and> Single l \<notin> set (badChars lp))"
  shows "escapeInOrder cs1 lp = escapeInOrder cs2 lp \<and> escapeInOrder cs1 lp = escapeLocalpart lp"
proof -
  have "\<forall>h l. Surrogates h l \<in> set (badChars lp) \<longrightarrow>
            Single h \<notin> set (badChars lp) \<and> Single l \<notin> set (badChars lp)"
    using assms(5) wellFormed_no_split_surrogates by blast
  then have dt: "disjointTargets (set (badChars lp))"
    by (rule disjointTargets_badChars)
  have "escapeInOrder cs1 lp = canonical (set (badChars lp)) lp"
    using escapeInOrder_canonical [of cs1 lp] dt assms(1,2) by simp
  moreover have "escapeInOrder cs2 lp = canonical (set (badChars lp)) lp"
    using escapeInOrder_canonical [of cs2 lp] dt assms(3,4) by simp
  moreover have "escapeLocalpart lp = canonical (set (badChars lp)) lp"
    using escapeInOrder_canonical [of "badChars lp" lp] dt distinct_badChars
    by (simp add: escapeLocalpart_def)
  ultimately show ?thesis by simp
qed

text \<open>
  The theorem at the localpart \<open>a\<close>, space, U+D83D U+DE00, \<open>!\<close>, space, for two orders
  that both differ from the insertion order.
\<close>

theorem escapeInOrder_order_independent_witness:
  "badChars [0x61, 0x20, 0xD83D, 0xDE00, 0x21, 0x20] = [Single 0x20, Surrogates 0xD83D 0xDE00, Single 0x21]
   \<and> escapeInOrder [Single 0x21, Single 0x20, Surrogates 0xD83D 0xDE00] [0x61, 0x20, 0xD83D, 0xDE00, 0x21, 0x20]
     = escapeInOrder [Surrogates 0xD83D 0xDE00, Single 0x21, Single 0x20] [0x61, 0x20, 0xD83D, 0xDE00, 0x21, 0x20]
   \<and> escapeInOrder [Single 0x21, Single 0x20, Surrogates 0xD83D 0xDE00] [0x61, 0x20, 0xD83D, 0xDE00, 0x21, 0x20]
     = ustr ''a=20=d83d=21=20''"
proof -
  let ?lp = "[0x61, 0x20, 0xD83D, 0xDE00, 0x21, 0x20] :: jsstring"
  have bc: "badChars ?lp = [Single 0x20, Surrogates 0xD83D 0xDE00, Single 0x21]"
    by (simp add: escape_eval)
  have v: "escapeLocalpart ?lp = ustr ''a=20=d83d=21=20''"
    by (simp add: escape_eval)
  have h1: "set [Single 0x21, Single 0x20, Surrogates 0xD83D 0xDE00] = set (badChars ?lp)"
    unfolding bc by auto
  have h2: "distinct [Single 0x21, Single 0x20, Surrogates 0xD83D 0xDE00]" by simp
  have h3: "set [Surrogates 0xD83D 0xDE00, Single 0x21, Single 0x20] = set (badChars ?lp)"
    unfolding bc by auto
  have h4: "distinct [Surrogates 0xD83D 0xDE00, Single 0x21, Single 0x20]" by simp
  have h5: "wellFormed ?lp \<or>
         (\<forall>h l. Surrogates h l \<in> set (badChars ?lp) \<longrightarrow>
            Single h \<notin> set (badChars ?lp) \<and> Single l \<notin> set (badChars ?lp))"
    unfolding bc by simp
  note t = escapeInOrder_order_independent [OF h1 h2 h3 h4 h5]
  from t have e1: "escapeInOrder [Single 0x21, Single 0x20, Surrogates 0xD83D 0xDE00] ?lp
      = escapeInOrder [Surrogates 0xD83D 0xDE00, Single 0x21, Single 0x20] ?lp"
    by (rule conjunct1)
  from t have "escapeInOrder [Single 0x21, Single 0x20, Surrogates 0xD83D 0xDE00] ?lp
      = escapeLocalpart ?lp"
    by (rule conjunct2)
  then have e2: "escapeInOrder [Single 0x21, Single 0x20, Surrogates 0xD83D 0xDE00] ?lp
      = ustr ''a=20=d83d=21=20''"
    using v by (rule trans)
  from bc e1 e2 show ?thesis by (intro conjI)
qed

text \<open>
  Claim C7. The allowed set of the claim contains \<open>/\<close>, and the note above the
  regular expression says that Matrix accepts it, but the character class has no \<open>/\<close>:
  the localpart \<open>a/b\<close>, whose characters are all in the allowed set, is changed to
  \<open>a=2fb\<close>, by \<open>escapeUserId\<close> and so by the constructor.
\<close>

theorem escapeUserId_slash_escaped:
  "escapeLocalpart (ustr ''a/b'') = ustr ''a=2fb''
   \<and> localpart (projr (MatrixUser (Some (ustr ''@a/b:example.com'')) JUndefined True))
       = ustr ''a=2fb''"
  by (simp add: ctor_eval escape_eval)

text \<open>
  On a localpart made of the characters of the class (the allowed set without \<open>/\<close>),
  escaping changes nothing, and any number of runs of \<open>escapeUserId\<close> leaves the
  localpart as it is.
\<close>

lemma escapeUserId_noop_on_class:
  assumes "\<forall>c\<in>set (localpart u). allowedUnit c"
  shows "escapeLocalpart (localpart u) = localpart u
         \<and> localpart ((escapeUserId ^^ n) u) = localpart u"
proof
  show "escapeLocalpart (localpart u) = localpart u"
    using assms by (rule escapeLocalpart_allowed)
  show "localpart ((escapeUserId ^^ n) u) = localpart u"
  proof (induction n)
    case 0
    then show ?case by simp
  next
    case (Suc n)
    then have "\<forall>c\<in>set (localpart ((escapeUserId ^^ n) u)). allowedUnit c"
      using assms by simp
    then show ?case
      using Suc by (simp add: localpart_escapeUserId escapeLocalpart_allowed)
  qed
qed

text \<open>
  Claim C8. As stated (every instance, every call) the claim fails: the assignment in
  \<open>serialize\<close> is skipped on a bag that cannot take it. For the instance built from
  \<open>@alice:example.com\<close> and a frozen empty object, \<open>serialize\<close> returns the bag
  without the key \<open>localpart\<close>.
\<close>

theorem serialize_object_frozen_counterexample:
  "fst (serialize_object
          \<lparr>user = projr (MatrixUser (Some (ustr ''@alice:example.com'')) (JObj Map.empty) True),
           readonly = {}, extensible = False\<rparr>) (ustr ''localpart'') = None"
  by (simp add: serialize_object_def localpartAssignable_def ctor_eval escape_eval)

text \<open>
  Claim C8, amended. For every instance whose bag takes the assignment (the bag has a
  writable property \<open>localpart\<close>, or has none and is extensible), the mapping returned by
  \<open>serialize\<close> has the key \<open>localpart\<close> with the current localpart of the instance as
  its value. For every instance, the returned mapping is the bag and has every own property
  the bag had before the call, with the value it had except at \<open>localpart\<close>.
\<close>

theorem serialize_object_contains_localpart:
  "(localpartAssignable this \<longrightarrow>
      fst (serialize_object this) (ustr ''localpart'') = Some (JStr (localpart (user this))))
   \<and> dom (u_data (user this)) \<subseteq> dom (fst (serialize_object this))
   \<and> (\<forall>k v. k \<noteq> ustr ''localpart'' \<and> u_data (user this) k = Some v \<longrightarrow>
         fst (serialize_object this) k = Some v)
   \<and> fst (serialize_object this) = u_data (user (snd (serialize_object this)))
   \<and> localpart (user (snd (serialize_object this))) = localpart (user this)"
  by (auto simp: serialize_object_def serialize_def Let_def)

text \<open>
  The theorem at an instance with the escaped localpart \<open>foo=20bar\<close> and an ordinary
  bag that holds a display name.
\<close>

theorem serialize_object_contains_localpart_witness:
  "localpartAssignable
     \<lparr>user = \<lparr>userId = ustr ''@foo=20bar:example.com'', localpart = ustr ''foo=20bar'',
                host = Some (ustr ''example.com''),
                u_data = [ustr ''displayName'' \<mapsto> JStr (ustr ''Alice'')]\<rparr>,
      readonly = {}, extensible = True\<rparr>
   \<and> ustr ''displayName'' \<noteq> ustr ''localpart''
   \<and> fst (serialize_object
     \<lparr>user = \<lparr>userId = ustr ''@foo=20bar:example.com'', localpart = ustr ''foo=20bar'',
                host = Some (ustr ''example.com''),
                u_data = [ustr ''displayName'' \<mapsto> JStr (ustr ''Alice'')]\<rparr>,
      readonly = {}, extensible = True\<rparr>) (ustr ''localpart'') = Some (JStr (ustr ''foo=20bar''))
   \<and> fst (serialize_object
     \<lparr>user = \<lparr>userId = ustr ''@foo=20bar:example.com'', localpart = ustr ''foo=20bar'',
                host = Some (ustr ''example.com''),
                u_data = [ustr ''displayName'' \<mapsto> JStr (ustr ''Alice'')]\<rparr>,
      readonly = {}, extensible = True\<rparr>) (ustr ''displayName'') = Some (JStr (ustr ''Alice''))"
proof -
  let ?o = "\<lparr>user = \<lparr>userId = ustr ''@foo=20bar:example.com'', localpart = ustr ''foo=20bar'',
                host = Some (ustr ''example.com''),
                u_data = [ustr ''displayName'' \<mapsto> JStr (ustr ''Alice'')]\<rparr>,
      readonly = {}, extensible = True\<rparr>"
  have ne: "ustr ''displayName'' \<noteq> ustr ''localpart''" by (simp add: ustr_def)
  have as: "localpartAssignable ?o"
    using ne by (simp add: localpartAssignable_def)
  have d: "u_data (user ?o) (ustr ''displayName'') = Some (JStr (ustr ''Alice''))"
    by simp
  note t = serialize_object_contains_localpart [of ?o]
  have "fst (serialize_object ?o) (ustr ''localpart'') = Some (JStr (localpart (user ?o)))"
    by (rule t [THEN conjunct1, THEN mp, OF as])
  then have l: "fst (serialize_object ?o) (ustr ''localpart'') = Some (JStr (ustr ''foo=20bar''))"
    by simp
  from t ne d have k: "fst (serialize_object ?o) (ustr ''displayName'') = Some (JStr (ustr ''Alice''))"
    by blast
  from as ne l k show ?thesis by (intro conjI)
qed

text \<open>
  Claim C9. \<open>serialize\<close> changes the bag at the key \<open>localpart\<close> only: every other key
  has the value it had, a value stored under \<open>localpart\<close> by \<open>set\<close> is overwritten
  with the localpart of the instance, the other fields of the instance are unchanged, the
  returned mapping is the bag, and a second call returns the same mapping.
\<close>

theorem serialize_frame:
  "(\<forall>k. k \<noteq> ustr ''localpart'' \<longrightarrow> u_data (snd (serialize u)) k = u_data u k)
   \<and> u_data (snd (serialize (set_js (ustr ''localpart'') v u))) (ustr ''localpart'')
       = Some (JStr (localpart u))
   \<and> fst (serialize (snd (serialize u))) = fst (serialize u)
   \<and> fst (serialize u) = u_data (snd (serialize u))
   \<and> userId (snd (serialize u)) = userId u
   \<and> localpart (snd (serialize u)) = localpart u
   \<and> host (snd (serialize u)) = host u"
  by (simp add: serialize_def set_js_def Let_def)

text \<open>
  The theorem at an instance whose bag has a display name and a number under
  \<open>localpart\<close>.
\<close>

theorem serialize_frame_witness:
  "ustr ''displayName'' \<noteq> ustr ''localpart''
   \<and> u_data (snd (serialize \<lparr>userId = ustr ''@alice:example.com'', localpart = ustr ''alice'',
         host = Some (ustr ''example.com''),
         u_data = [ustr ''displayName'' \<mapsto> JStr (ustr ''Alice''), ustr ''localpart'' \<mapsto> JNum 7]\<rparr>))
        (ustr ''displayName'') = Some (JStr (ustr ''Alice''))
   \<and> u_data (snd (serialize \<lparr>userId = ustr ''@alice:example.com'', localpart = ustr ''alice'',
         host = Some (ustr ''example.com''),
         u_data = [ustr ''displayName'' \<mapsto> JStr (ustr ''Alice''), ustr ''localpart'' \<mapsto> JNum 7]\<rparr>))
        (ustr ''localpart'') = Some (JStr (ustr ''alice''))"
proof -
  have ne: "ustr ''displayName'' \<noteq> ustr ''localpart''" by (simp add: ustr_def)
  show ?thesis
    using ne serialize_frame [of "\<lparr>userId = ustr ''@alice:example.com'', localpart = ustr ''alice'',
         host = Some (ustr ''example.com''),
         u_data = [ustr ''displayName'' \<mapsto> JStr (ustr ''Alice''), ustr ''localpart'' \<mapsto> JNum 7]\<rparr>"]
    by (simp add: serialize_def)
qed

text \<open>
  Claim C10. The constructor of RemoteRoom has no check and no failure: for every identifier,
  the empty string and \<open>undefined\<close> among them, it returns a room whose \<open>getId\<close> is
  that identifier; a falsy \<open>data\<close> is replaced by the empty mapping, a truthy one is
  stored as it is.
\<close>

theorem RemoteRoom_no_validation:
  "RemoteRoom_getId (RemoteRoom identifier d) = identifier
   \<and> RemoteRoom_getId (RemoteRoom (JStr []) d) = JStr []
   \<and> RemoteRoom_getId (RemoteRoom JUndefined d) = JUndefined
   \<and> (\<not> truthy d \<longrightarrow> data (RemoteRoom identifier d) = JObj Map.empty)
   \<and> (truthy d \<longrightarrow> data (RemoteRoom identifier d) = d)"
  by (simp add: RemoteRoom_def RemoteRoom_getId_def orEmptyObject_def)

text \<open>
  The theorem at an absent and at an empty identifier, with falsy and truthy data.
\<close>

theorem RemoteRoom_no_validation_witness:
  "\<not> truthy (JStr []) \<and> data (RemoteRoom JUndefined (JStr [])) = JObj Map.empty
   \<and> truthy (JNum 5) \<and> data (RemoteRoom (JStr []) (JNum 5)) = JNum 5
   \<and> RemoteRoom_getId (RemoteRoom JUndefined JNull) = JUndefined"
  using RemoteRoom_no_validation [of JUndefined "JStr []"]
    RemoteRoom_no_validation [of "JStr []" "JNum 5"]
    RemoteRoom_no_validation [of JUndefined JNull]
  by simp

end
